theory Spec2Isabelle
  imports Main "HOL-Library.Word"
begin

section \<open>SASLprep (packages/saslprep/src/index.ts)\<close>

text \<open>
  A JavaScript string is a sequence of 16-bit code units; \<open>charCodeAt\<close> reads one unit as
  a number. Code points are JavaScript numbers, modelled as \<open>nat\<close> (every value that occurs
  is a non-negative integer far below the range where doubles lose precision).
\<close>

type_synonym utf16 = "16 word list"

text \<open>
  The six tables returned by \<open>createMemoryCodePoints\<close> (module \<open>memory-code-points\<close>, which
  is not part of the sources at hand). The function only ever calls \<open>.get(codepoint)\<close> on
  them and tests the result for truthiness, so a table is taken as a parameter: the
  predicate that \<open>.get\<close> computes.
\<close>

record tables =
  unassigned_code_points :: "nat \<Rightarrow> bool"
  commonly_mapped_to_nothing :: "nat \<Rightarrow> bool"
  non_ASCII_space_characters :: "nat \<Rightarrow> bool"
  prohibited_characters :: "nat \<Rightarrow> bool"
  bidirectional_r_al :: "nat \<Rightarrow> bool"
  bidirectional_l :: "nat \<Rightarrow> bool"

text \<open>\<open>opts: { allowUnassigned?: boolean }\<close>: the field may be absent.\<close>

record opts =
  allowUnassigned :: "bool option"

text \<open>
  The argument \<open>input\<close> is typed \<open>string\<close>, but the function tests \<open>typeof input\<close> at run
  time, so a caller can pass anything.
\<close>

datatype js_value = JSString utf16 | JSOther

text \<open>
  What a call can end with other than a string. The first five are the error kinds of the
  specification (the source throws \<open>TypeError('Expected string.')\<close> for the first and
  \<open>Error\<close> with four different messages for the others). \<open>UncaughtTypeError\<close> is the
  \<open>TypeError\<close> the JavaScript engine raises when a method is called on \<open>undefined\<close>;
  \<open>UncaughtRangeError\<close> is the \<open>RangeError\<close> of \<open>String.fromCodePoint.apply\<close>.
\<close>

datatype error =
    InvalidInputType
  | ProhibitedCharacter
  | UnassignedCodePoint
  | BidiMixedDirection
  | BidiEdgePlacement
  | UncaughtTypeError
  | UncaughtRangeError

subsection \<open>utils\<close>

text \<open>
  \<open>String.prototype.codePointAt(0)\<close>: \<open>undefined\<close> on the empty string; otherwise the
  first unit, combined with the second when they form a surrogate pair.
\<close>

fun codePointAt0 :: "utf16 \<Rightarrow> nat option" where
  "codePointAt0 [] = None"
| "codePointAt0 [u] = Some (unat u)"
| "codePointAt0 (u # v # rest) =
     (if 0xd800 \<le> unat u \<and> unat u \<le> 0xdbff \<and> 0xdc00 \<le> unat v \<and> unat v \<le> 0xdfff
      then Some ((unat u - 0xd800) * 0x400 + (unat v - 0xdc00) + 0x10000)
      else Some (unat u))"

text \<open>
  \<open>getCodePoint = (character) => character.codePointAt(0)\<close>. The argument is what
  \<open>first\<close> or \<open>last\<close> returned, which may be \<open>undefined\<close> (here \<open>None\<close>); calling a
  method on \<open>undefined\<close> throws a \<open>TypeError\<close>.
\<close>

definition getCodePoint :: "utf16 option \<Rightarrow> error + nat option" where
  "getCodePoint character =
     (case character of
        None \<Rightarrow> Inl UncaughtTypeError
      | Some s \<Rightarrow> Inr (codePointAt0 s))"

text \<open>
  \<open>first = (x) => x[0]\<close> and \<open>last = (x) => x[x.length - 1]\<close>. Indexing a string gives the
  string of the one code unit at that position, and \<open>undefined\<close> when there is none.
\<close>

definition first :: "utf16 \<Rightarrow> utf16 option" where
  "first x = (if 0 < length x then Some [x ! 0] else None)"

definition last_unit :: "utf16 \<Rightarrow> utf16 option" where
  "last_unit x = (if 0 < length x then Some [x ! (length x - 1)] else None)"

subsection \<open>toCodePoints\<close>

text \<open>
  The \<open>for\<close> loop of \<open>toCodePoints\<close>, with its index \<open>i\<close> and the array \<open>codepoints\<close>
  built by \<open>push\<close>. The \<open>continue\<close> after \<open>i += 1\<close> reaches the loop's own \<open>i += 1\<close>, so
  a pair advances the index by two.
\<close>

function toCodePoints_loop :: "utf16 \<Rightarrow> nat \<Rightarrow> nat list \<Rightarrow> nat list" where
  "toCodePoints_loop input i codepoints =
     (if i < length input then
        (if unat (input ! i) \<ge> 0xd800 \<and> unat (input ! i) \<le> 0xdbff \<and> length input > i + 1
            \<and> unat (input ! (i + 1)) \<ge> 0xdc00 \<and> unat (input ! (i + 1)) \<le> 0xdfff
         then toCodePoints_loop input (i + 1 + 1)
                (codepoints @
                   [(unat (input ! i) - 0xd800) * 0x400 + unat (input ! (i + 1)) - 0xdc00 + 0x10000])
         else toCodePoints_loop input (i + 1) (codepoints @ [unat (input ! i)]))
      else codepoints)"
  by pat_completeness auto
termination
  by (relation "measure (\<lambda>(input, i, codepoints). length input - i)") auto

declare toCodePoints_loop.simps [simp del]

definition toCodePoints :: "utf16 \<Rightarrow> nat list" where
  "toCodePoints input = toCodePoints_loop input 0 []"

text \<open>
  The decoder as section 4.1 of the specification words it: a high surrogate followed by
  a low surrogate gives one scalar value and consumes two units; any other unit is emitted
  unchanged and consumes one.
\<close>

fun decode_spec :: "utf16 \<Rightarrow> nat list" where
  "decode_spec [] = []"
| "decode_spec [u] = [unat u]"
| "decode_spec (high # low # rest) =
     (if 0xD800 \<le> unat high \<and> unat high \<le> 0xDBFF \<and> 0xDC00 \<le> unat low \<and> unat low \<le> 0xDFFF
      then ((unat high - 0xD800) * 0x400 + (unat low - 0xDC00) + 0x10000) # decode_spec rest
      else unat high # decode_spec (low # rest))"

subsection \<open>String.fromCodePoint\<close>

text \<open>
  The built-in \<open>String.fromCodePoint\<close> (ECMAScript, UTF16EncodeCodePoint): a code point up
  to \<open>0xFFFF\<close> is one unit, a larger one is a surrogate pair, and a number above
  \<open>0x10FFFF\<close> raises a \<open>RangeError\<close> (here \<open>None\<close>).
\<close>

definition UTF16EncodeCodePoint :: "nat \<Rightarrow> utf16" where
  "UTF16EncodeCodePoint cp =
     (if cp \<le> 0xFFFF then [of_nat cp]
      else [of_nat ((cp - 0x10000) div 0x400 + 0xD800), of_nat ((cp - 0x10000) mod 0x400 + 0xDC00)])"

definition fromCodePoint :: "nat list \<Rightarrow> utf16 option" where
  "fromCodePoint cps =
     (if list_ex (\<lambda>cp. cp > 0x10FFFF) cps then None
      else Some (concat (map UTF16EncodeCodePoint cps)))"

text \<open>
  \<open>String.fromCodePoint.apply(null, mapped_input)\<close>: every element of the array becomes one
  argument of the call. An engine passes only a bounded number of arguments and raises a
  \<open>RangeError\<close> when the array is longer; the bound differs from engine to engine and is
  the parameter \<open>max_args\<close>.
\<close>

definition fromCodePoint_apply :: "nat \<Rightarrow> nat list \<Rightarrow> utf16 option" where
  "fromCodePoint_apply max_args cps =
     (if length cps > max_args then None else fromCodePoint cps)"

subsection \<open>saslprep\<close>

text \<open>Step 1 of \<open>saslprep\<close>: \<open>toCodePoints(input).map(...).filter(...)\<close>.\<close>

definition mapped_input :: "tables \<Rightarrow> utf16 \<Rightarrow> nat list" where
  "mapped_input t input =
     filter (\<lambda>character. \<not> commonly_mapped_to_nothing t character)
       (map (\<lambda>character. if non_ASCII_space_characters t character then 0x20 else character)
          (toCodePoints input))"

text \<open>
  Step 2: \<open>String.fromCodePoint.apply(null, mapped_input).normalize('NFKC')\<close>. The
  normalization is the engine's; it is the parameter \<open>nfkc\<close>. The result is \<open>None\<close> when
  the call of \<open>String.fromCodePoint\<close> raises its \<open>RangeError\<close>.
\<close>

definition normalized_input ::
    "nat \<Rightarrow> (utf16 \<Rightarrow> utf16) \<Rightarrow> tables \<Rightarrow> utf16 \<Rightarrow> utf16 option" where
  "normalized_input max_args nfkc t input =
     map_option nfkc (fromCodePoint_apply max_args (mapped_input t input))"

text \<open>
  \<open>bidirectional_r_al.get(getCodePoint(first(normalized_input))!)\<close>. The \<open>!\<close> is a
  compile-time assertion only. \<open>getCodePoint\<close> gives \<open>undefined\<close> only for an empty
  string, which \<open>first\<close> and \<open>last\<close> never return; the table is then taken to answer
  no.
\<close>

definition edge_is_r_al :: "tables \<Rightarrow> utf16 option \<Rightarrow> error + bool" where
  "edge_is_r_al t character =
     (case getCodePoint character of
        Inl e \<Rightarrow> Inl e
      | Inr None \<Rightarrow> Inr False
      | Inr (Some cp) \<Rightarrow> Inr (bidirectional_r_al t cp))"

definition saslprep ::
    "nat \<Rightarrow> (utf16 \<Rightarrow> utf16) \<Rightarrow> tables \<Rightarrow> js_value \<Rightarrow> opts \<Rightarrow> error + utf16" where
  "saslprep max_args nfkc t input opts =
     (case input of
        JSOther \<Rightarrow> Inl InvalidInputType
      | JSString inp \<Rightarrow>
          if length inp = 0 then Inr []
          else
            (case normalized_input max_args nfkc t inp of
               None \<Rightarrow> Inl UncaughtRangeError
             | Some ni \<Rightarrow>
                 let normalized_map = toCodePoints ni;
                     hasProhibited = list_ex (prohibited_characters t) normalized_map
                 in
                 if hasProhibited then Inl ProhibitedCharacter
                 else if allowUnassigned opts \<noteq> Some True
                         \<and> list_ex (unassigned_code_points t) normalized_map
                 then Inl UnassignedCodePoint
                 else
                   let hasBidiRAL = list_ex (bidirectional_r_al t) normalized_map;
                       hasBidiL = list_ex (bidirectional_l t) normalized_map
                   in
                   if hasBidiRAL \<and> hasBidiL then Inl BidiMixedDirection
                   else
                     (case edge_is_r_al t (first ni) of
                        Inl e \<Rightarrow> Inl e
                      | Inr isFirstBidiRAL \<Rightarrow>
                          (case edge_is_r_al t (last_unit ni) of
                             Inl e \<Rightarrow> Inl e
                           | Inr isLastBidiRAL \<Rightarrow>
                               if hasBidiRAL \<and> \<not> (isFirstBidiRAL \<and> isLastBidiRAL)
                               then Inl BidiEdgePlacement
                               else Inr ni))))"

subsection \<open>Example data\<close>

text \<open>
  The examples below use only strings that Unicode NFKC leaves unchanged (the empty string,
  ASCII letters and digits, U+0020, the Hebrew letter U+05D0, U+10000, U+10800). On them
  the engine's \<open>normalize('NFKC')\<close> is the identity, which also maps the empty string to
  itself and is idempotent. The engine of the examples passes up to 65535 arguments; no
  example passes more than four.
\<close>

definition example_max_args :: nat where
  "example_max_args = 65535"

definition nfkc_unchanged :: "utf16 \<Rightarrow> utf16" where
  "nfkc_unchanged s = s"

definition no_tables :: tables where
  "no_tables =
     \<lparr>unassigned_code_points = (\<lambda>c. False),
      commonly_mapped_to_nothing = (\<lambda>c. False),
      non_ASCII_space_characters = (\<lambda>c. False),
      prohibited_characters = (\<lambda>c. False),
      bidirectional_r_al = (\<lambda>c. False),
      bidirectional_l = (\<lambda>c. False)\<rparr>"

definition default_opts :: opts where
  "default_opts = \<lparr>allowUnassigned = None\<rparr>"

text \<open>A table set whose only right-to-left code point is U+10800 (CYPRIOT SYLLABLE A).\<close>

definition cypriot_tables :: tables where
  "cypriot_tables = no_tables\<lparr>bidirectional_r_al := (\<lambda>c. c = 0x10800)\<rparr>"

text \<open>U+10800 is right-to-left and also unassigned.\<close>

definition cypriot_unassigned_tables :: tables where
  "cypriot_unassigned_tables =
     no_tables\<lparr>unassigned_code_points := (\<lambda>c. c = 0x10800),
               bidirectional_r_al := (\<lambda>c. c = 0x10800)\<rparr>"

text \<open>U+00AD (SOFT HYPHEN) is mapped to nothing.\<close>

definition soft_hyphen_tables :: tables where
  "soft_hyphen_tables = no_tables\<lparr>commonly_mapped_to_nothing := (\<lambda>c. c = 0xAD)\<rparr>"

text \<open>U+00AD is mapped to nothing and U+10000 counts as a space.\<close>

definition linear_b_space_tables :: tables where
  "linear_b_space_tables =
     no_tables\<lparr>commonly_mapped_to_nothing := (\<lambda>c. c = 0xAD),
               non_ASCII_space_characters := (\<lambda>c. c = 0x10000)\<rparr>"

text \<open>U+10000 (LINEAR B SYLLABLE B008 A) is mapped to nothing.\<close>

definition linear_b_nothing_tables :: tables where
  "linear_b_nothing_tables = no_tables\<lparr>commonly_mapped_to_nothing := (\<lambda>c. c = 0x10000)\<rparr>"

text \<open>The letter A is at once prohibited, unassigned, right-to-left and left-to-right.\<close>

definition clash_tables :: tables where
  "clash_tables =
     no_tables\<lparr>unassigned_code_points := (\<lambda>c. c = 0x41),
               prohibited_characters := (\<lambda>c. c = 0x41),
               bidirectional_r_al := (\<lambda>c. c = 0x41),
               bidirectional_l := (\<lambda>c. c = 0x41)\<rparr>"

text \<open>U+05D0 (HEBREW LETTER ALEF) is right-to-left, the letter a is left-to-right.\<close>

definition hebrew_tables :: tables where
  "hebrew_tables =
     no_tables\<lparr>bidirectional_r_al := (\<lambda>c. c = 0x5D0),
               bidirectional_l := (\<lambda>c. c = 0x61)\<rparr>"

section \<open>The decoder\<close>

lemma toCodePoints_loop_decode:
  "i \<le> length input \<Longrightarrow>
   toCodePoints_loop input i codepoints = codepoints @ decode_spec (drop i input)"
proof (induction input i codepoints rule: toCodePoints_loop.induct)
  case (1 input i codepoints)
  show ?case
  proof (cases "i < length input")
    case False
    with "1.prems" show ?thesis
      by (subst toCodePoints_loop.simps) simp
  next
    case True
    then have d1: "drop i input = input ! i # drop (Suc i) input"
      by (simp add: Cons_nth_drop_Suc)
    show ?thesis
    proof (cases "length input > i + 1")
      case False
      with True have e: "drop (Suc i) input = []" by simp
      from True False "1.IH"(2) [of] e d1 show ?thesis
        by (subst toCodePoints_loop.simps) simp
    next
      case long: True
      then have d2: "drop (Suc i) input = input ! (Suc i) # drop (Suc (Suc i)) input"
        using Cons_nth_drop_Suc [of "Suc i" input] by simp
      show ?thesis
      proof (cases "unat (input ! i) \<ge> 0xd800 \<and> unat (input ! i) \<le> 0xdbff
            \<and> unat (input ! (i + 1)) \<ge> 0xdc00 \<and> unat (input ! (i + 1)) \<le> 0xdfff")
        case pair: True
        with True long have "toCodePoints_loop input i codepoints =
            toCodePoints_loop input (i + 1 + 1)
              (codepoints @
                 [(unat (input ! i) - 0xd800) * 0x400 + unat (input ! (i + 1)) - 0xdc00 + 0x10000])"
          by (subst toCodePoints_loop.simps) simp
        also have "\<dots> = (codepoints @
                 [(unat (input ! i) - 0xd800) * 0x400 + unat (input ! (i + 1)) - 0xdc00 + 0x10000])
               @ decode_spec (drop (i + 1 + 1) input)"
          using True long pair by (intro "1.IH"(1)) simp_all
        also have "\<dots> = codepoints @ decode_spec (drop i input)"
          using pair by (simp add: d1 d2)
        finally show ?thesis .
      next
        case nopair: False
        with True have "toCodePoints_loop input i codepoints =
            toCodePoints_loop input (i + 1) (codepoints @ [unat (input ! i)])"
          by (subst toCodePoints_loop.simps) auto
        also have "\<dots> = (codepoints @ [unat (input ! i)]) @ decode_spec (drop (i + 1) input)"
          using True nopair by (intro "1.IH"(2)) auto
        also have "\<dots> = codepoints @ decode_spec (drop i input)"
          using nopair by (simp add: d1 d2)
        finally show ?thesis .
      qed
    qed
  qed
qed

lemma toCodePoints_decode: "toCodePoints input = decode_spec input"
  by (simp add: toCodePoints_def toCodePoints_loop_decode)

lemma decode_spec_le: "c \<in> set (decode_spec s) \<Longrightarrow> c \<le> 0x10FFFF"
proof (induction s rule: decode_spec.induct)
  case 1
  then show ?case by simp
next
  case (2 u)
  have "unat u < 2 ^ 16" using unsigned_less [of u] by simp
  with 2 show ?case by simp
next
  case (3 high low rest)
  have "unat high < 2 ^ 16" using unsigned_less [of high] by simp
  with 3 show ?case by (auto split: if_splits)
qed

lemma toCodePoints_le: "c \<in> set (toCodePoints s) \<Longrightarrow> c \<le> 0x10FFFF"
  by (simp add: toCodePoints_decode decode_spec_le)

section \<open>String.fromCodePoint after toCodePoints\<close>

lemma mapped_input_le: "c \<in> set (mapped_input t s) \<Longrightarrow> c \<le> 0x10FFFF"
  by (auto simp: mapped_input_def dest: toCodePoints_le split: if_splits)

lemma fromCodePoint_Some:
  "(\<And>c. c \<in> set cps \<Longrightarrow> c \<le> 0x10FFFF) \<Longrightarrow>
   fromCodePoint cps = Some (concat (map UTF16EncodeCodePoint cps))"
  by (fastforce simp: fromCodePoint_def list_ex_iff)

lemma normalized_input_Some:
  "length (mapped_input t s) \<le> max_args \<Longrightarrow>
   normalized_input max_args nfkc t s =
     Some (nfkc (concat (map UTF16EncodeCodePoint (mapped_input t s))))"
  by (simp add: normalized_input_def fromCodePoint_apply_def fromCodePoint_Some mapped_input_le)

lemma normalized_input_SomeD:
  assumes "normalized_input max_args nfkc t s = Some ni"
  shows "ni = nfkc (concat (map UTF16EncodeCodePoint (mapped_input t s)))"
proof -
  from assms have "length (mapped_input t s) \<le> max_args"
    by (auto simp: normalized_input_def fromCodePoint_apply_def split: if_splits)
  from normalized_input_Some [OF this, of nfkc] assms show ?thesis by simp
qed

lemma UTF16Encode_unit: "UTF16EncodeCodePoint (unat (u :: 16 word)) = [u]"
proof -
  have "unat u < 2 ^ 16" using unsigned_less [of u] by simp
  then show ?thesis by (simp add: UTF16EncodeCodePoint_def)
qed

lemma UTF16Encode_pair:
  fixes high low :: "16 word"
  assumes "0xD800 \<le> unat high" "unat high \<le> 0xDBFF" "0xDC00 \<le> unat low" "unat low \<le> 0xDFFF"
  shows "UTF16EncodeCodePoint ((unat high - 0xD800) * 0x400 + (unat low - 0xDC00) + 0x10000)
           = [high, low]"
proof -
  define a where "a = unat high - 0xD800"
  define b where "b = unat low - 0xDC00"
  have b: "b < 0x400" and ha: "a + 0xD800 = unat high" and lb: "b + 0xDC00 = unat low"
    using assms by (simp_all add: a_def b_def)
  have "(a * 0x400 + b) div 0x400 = a" "(a * 0x400 + b) mod 0x400 = b"
    using b by simp_all
  then have "UTF16EncodeCodePoint (a * 0x400 + b + 0x10000)
      = [of_nat (a + 0xD800), of_nat (b + 0xDC00)]"
    by (simp add: UTF16EncodeCodePoint_def)
  also have "\<dots> = [high, low]"
    unfolding ha lb by simp
  finally show ?thesis by (simp add: a_def b_def)
qed

lemma encode_decode_spec: "concat (map UTF16EncodeCodePoint (decode_spec s)) = s"
proof (induction s rule: decode_spec.induct)
  case 1
  show ?case by simp
next
  case (2 u)
  show ?case by (simp add: UTF16Encode_unit)
next
  case (3 high low rest)
  show ?case
  proof (cases "0xD800 \<le> unat high \<and> unat high \<le> 0xDBFF \<and> 0xDC00 \<le> unat low \<and> unat low \<le> 0xDFFF")
    case True
    then have "decode_spec (high # low # rest) =
        ((unat high - 0xD800) * 0x400 + (unat low - 0xDC00) + 0x10000) # decode_spec rest"
      by simp
    then have "concat (map UTF16EncodeCodePoint (decode_spec (high # low # rest))) =
        UTF16EncodeCodePoint ((unat high - 0xD800) * 0x400 + (unat low - 0xDC00) + 0x10000)
          @ concat (map UTF16EncodeCodePoint (decode_spec rest))"
      by (simp only: list.map concat.simps)
    also have "\<dots> = [high, low] @ rest"
      using True "3.IH"(1) by (simp only: UTF16Encode_pair)
    finally show ?thesis by simp
  next
    case False
    then have "decode_spec (high # low # rest) = unat high # decode_spec (low # rest)"
      by auto
    with False "3.IH"(2) show ?thesis
      by (simp only: list.map concat.simps UTF16Encode_unit) simp
  qed
qed

lemma fromCodePoint_toCodePoints: "fromCodePoint (toCodePoints s) = Some s"
  by (simp add: fromCodePoint_Some toCodePoints_le)
     (simp add: toCodePoints_decode encode_decode_spec)

section \<open>String.fromCodePoint before toCodePoints\<close>

lemma unat_of_nat16: "a \<le> 0xFFFF \<Longrightarrow> unat (of_nat a :: 16 word) = a"
  by (simp add: unat_of_nat)

lemma decode_spec_not_high:
  "\<not> (0xD800 \<le> unat u \<and> unat u \<le> 0xDBFF) \<Longrightarrow> decode_spec (u # rest) = unat u # decode_spec rest"
  by (cases rest) auto

lemma decode_spec_not_low:
  "\<not> (0xDC00 \<le> unat v \<and> unat v \<le> 0xDFFF) \<Longrightarrow>
   decode_spec (u # v # rest) = unat u # decode_spec (v # rest)"
  by auto

lemma decode_encode_supplementary:
  assumes "0xFFFF < a" "a \<le> 0x10FFFF"
  shows "decode_spec (UTF16EncodeCodePoint a @ rest) = a # decode_spec rest"
proof -
  define q where "q = (a - 0x10000) div 0x400"
  define r where "r = (a - 0x10000) mod 0x400"
  have q: "q < 0x400" and r: "r < 0x400" and a: "a = q * 0x400 + r + 0x10000"
    using assms by (simp_all add: q_def r_def)
  have uq: "unat (of_nat (q + 0xD800) :: 16 word) = q + 0xD800"
    using q by (intro unat_of_nat16) simp
  have ur: "unat (of_nat (r + 0xDC00) :: 16 word) = r + 0xDC00"
    using r by (intro unat_of_nat16) simp
  have enc: "UTF16EncodeCodePoint a = [of_nat (q + 0xD800), of_nat (r + 0xDC00)]"
    using assms by (simp add: UTF16EncodeCodePoint_def q_def r_def)
  show ?thesis
    unfolding enc using q r by (simp add: uq ur a del: of_nat_add)
qed

lemma decode_encode_mem:
  assumes "\<And>a. a \<in> set m \<Longrightarrow> a \<le> 0x10FFFF"
    and "c \<in> set (decode_spec (concat (map UTF16EncodeCodePoint m)))"
  shows "c \<in> set m \<or>
         (0x10000 \<le> c \<and> (\<exists>h\<in>set m. 0xD800 \<le> h \<and> h \<le> 0xDBFF)
                      \<and> (\<exists>l\<in>set m. 0xDC00 \<le> l \<and> l \<le> 0xDFFF))"
  using assms
proof (induction m rule: induct_list012)
  case 1
  then show ?case by simp
next
  case (2 x)
  show ?case
  proof (cases "x \<le> 0xFFFF")
    case True
    with 2 show ?thesis by (simp add: UTF16EncodeCodePoint_def unat_of_nat16)
  next
    case False
    then have "decode_spec (UTF16EncodeCodePoint x @ []) = x # decode_spec []"
      using 2(1) by (intro decode_encode_supplementary) simp_all
    with 2 show ?thesis by simp
  qed
next
  case (3 x y zs)
  let ?E = "\<lambda>m. concat (map UTF16EncodeCodePoint m)"
  have le: "\<And>a. a \<in> set zs \<Longrightarrow> a \<le> 0x10FFFF" "\<And>a. a \<in> set (y # zs) \<Longrightarrow> a \<le> 0x10FFFF"
    "y \<le> 0x10FFFF" "x \<le> 0x10FFFF"
    using "3.prems"(1) by simp_all
  have weaken: "c \<in> set (x # y # zs) \<or>
         (0x10000 \<le> c \<and> (\<exists>h\<in>set (x # y # zs). 0xD800 \<le> h \<and> h \<le> 0xDBFF)
                      \<and> (\<exists>l\<in>set (x # y # zs). 0xDC00 \<le> l \<and> l \<le> 0xDFFF))"
    if "c \<in> set (decode_spec (?E zs)) \<or> c \<in> set (decode_spec (?E (y # zs))) \<or> c = x"
    using that "3.IH"(1) [OF le(1)] "3.IH"(2) [OF le(2)] by auto
  show ?case
  proof (cases "x \<le> 0xFFFF")
    case False
    then have "decode_spec (UTF16EncodeCodePoint x @ ?E (y # zs)) = x # decode_spec (?E (y # zs))"
      using le(4) by (intro decode_encode_supplementary) simp_all
    with "3.prems"(2) have "c = x \<or> c \<in> set (decode_spec (?E (y # zs)))" by simp
    then show ?thesis using weaken by blast
  next
    case xs: True
    then have ex: "UTF16EncodeCodePoint x = [of_nat x]" and ux: "unat (of_nat x :: 16 word) = x"
      by (simp_all add: UTF16EncodeCodePoint_def unat_of_nat16)
    show ?thesis
    proof (cases "y \<le> 0xFFFF")
      case False
      define q where "q = (y - 0x10000) div 0x400"
      have q: "q < 0x400" using False le(3) by (simp add: q_def)
      have ey: "UTF16EncodeCodePoint y = [of_nat (q + 0xD800), of_nat ((y - 0x10000) mod 0x400 + 0xDC00)]"
        using False by (simp add: UTF16EncodeCodePoint_def q_def)
      have uq: "unat (of_nat (q + 0xD800) :: 16 word) = q + 0xD800"
        using q by (intro unat_of_nat16) simp
      have "decode_spec (?E (x # y # zs)) = x # decode_spec (?E (y # zs))"
        using q by (simp add: ex ey ux uq del: of_nat_add)
      with "3.prems"(2) have "c = x \<or> c \<in> set (decode_spec (?E (y # zs)))" by simp
      then show ?thesis using weaken by blast
    next
      case ys: True
      then have ey: "UTF16EncodeCodePoint y = [of_nat y]" and uy: "unat (of_nat y :: 16 word) = y"
        by (simp_all add: UTF16EncodeCodePoint_def unat_of_nat16)
      show ?thesis
      proof (cases "0xD800 \<le> x \<and> x \<le> 0xDBFF \<and> 0xDC00 \<le> y \<and> y \<le> 0xDFFF")
        case True
        then have "decode_spec (?E (x # y # zs)) =
            ((x - 0xD800) * 0x400 + (y - 0xDC00) + 0x10000) # decode_spec (?E zs)"
          by (simp add: ex ey ux uy)
        with "3.prems"(2) have "c = (x - 0xD800) * 0x400 + (y - 0xDC00) + 0x10000
            \<or> c \<in> set (decode_spec (?E zs))" by simp
        then show ?thesis
        proof
          assume "c = (x - 0xD800) * 0x400 + (y - 0xDC00) + 0x10000"
          then have "0x10000 \<le> c" by simp
          with True show ?thesis by auto
        next
          assume "c \<in> set (decode_spec (?E zs))"
          then show ?thesis using weaken by blast
        qed
      next
        case False
        then have "decode_spec (?E (x # y # zs)) = x # decode_spec (?E (y # zs))"
          by (simp add: ex ey ux uy)
        with "3.prems"(2) have "c = x \<or> c \<in> set (decode_spec (?E (y # zs)))" by simp
        then show ?thesis using weaken by blast
      qed
    qed
  qed
qed

section \<open>The steps of saslprep\<close>

lemma toCodePoints_Nil: "toCodePoints [] = []"
  by (simp add: toCodePoints_decode)

lemma edge_first:
  "edge_is_r_al t (first ni) =
     (if ni = [] then Inl UncaughtTypeError else Inr (bidirectional_r_al t (unat (hd ni))))"
  by (cases ni) (simp_all add: edge_is_r_al_def first_def getCodePoint_def)

lemma edge_last:
  "edge_is_r_al t (last_unit ni) =
     (if ni = [] then Inl UncaughtTypeError else Inr (bidirectional_r_al t (unat (last ni))))"
  by (simp add: edge_is_r_al_def last_unit_def getCodePoint_def last_conv_nth)

lemma saslprep_nonempty:
  assumes "inp \<noteq> []" and "normalized_input max_args nfkc t inp = Some ni"
  shows "saslprep max_args nfkc t (JSString inp) opts =
    (if list_ex (prohibited_characters t) (toCodePoints ni) then Inl ProhibitedCharacter
     else if allowUnassigned opts \<noteq> Some True
             \<and> list_ex (unassigned_code_points t) (toCodePoints ni)
       then Inl UnassignedCodePoint
     else if list_ex (bidirectional_r_al t) (toCodePoints ni)
             \<and> list_ex (bidirectional_l t) (toCodePoints ni)
       then Inl BidiMixedDirection
     else if ni = [] then Inl UncaughtTypeError
     else if list_ex (bidirectional_r_al t) (toCodePoints ni)
            \<and> \<not> (bidirectional_r_al t (unat (hd ni)) \<and> bidirectional_r_al t (unat (last ni)))
       then Inl BidiEdgePlacement
     else Inr ni)"
  using assms
  by (cases "ni = []")
     (auto simp: saslprep_def edge_first edge_last Let_def toCodePoints_Nil)

lemma saslprep_empty: "saslprep max_args nfkc t (JSString []) opts = Inr []"
  by (simp add: saslprep_def)

lemma normalized_input_empty: "nfkc [] = [] \<Longrightarrow> normalized_input max_args nfkc t [] = Some []"
  by (simp add: normalized_input_def fromCodePoint_apply_def fromCodePoint_def mapped_input_def
        toCodePoints_Nil)

lemma saslprep_Inr:
  assumes "inp \<noteq> []" and "saslprep max_args nfkc t (JSString inp) opts = Inr y"
  shows "normalized_input max_args nfkc t inp = Some y"
proof (cases "normalized_input max_args nfkc t inp")
  case None
  with assms show ?thesis by (simp add: saslprep_def)
next
  case (Some ni)
  from assms(2) have "y = ni"
    unfolding saslprep_nonempty [OF assms(1) Some, of opts] by (auto split: if_splits)
  with Some show ?thesis by simp
qed

lemmas eval_saslprep =
  saslprep_def normalized_input_def fromCodePoint_apply_def fromCodePoint_def mapped_input_def
  toCodePoints_decode example_max_args_def
  UTF16EncodeCodePoint_def first_def last_unit_def edge_is_r_al_def getCodePoint_def
  nfkc_unchanged_def no_tables_def default_opts_def

section \<open>Claims\<close>

text \<open>
  Claim C4. For every UTF-16 string, \<open>toCodePoints\<close> (the index loop of the source)
  computes exactly the decoder of the specification: scanning left to right, a high
  surrogate (0xD800 to 0xDBFF) that has a next unit which is a low surrogate (0xDC00 to
  0xDFFF) yields the single scalar \<open>(high - 0xD800) * 0x400 + (low - 0xDC00) + 0x10000\<close>
  and two positions are consumed; every other unit, lone surrogates included, is emitted
  unchanged and one position is consumed. The empty string decodes to the empty sequence.
  The function is total and has no error result: decoding never fails.
\<close>

theorem toCodePoints_refines_decode_spec:
  "toCodePoints input = decode_spec input \<and> toCodePoints [] = []"
  by (simp add: toCodePoints_def toCodePoints_loop_decode)

text \<open>
  Claim C5. The mapping step treats each decoded code point on its own, in this order: a
  code point of the non-ASCII-space table (tested on the original decoded value) becomes
  U+0020, and it is then dropped exactly when U+0020, the value after the substitution,
  is in the commonly-mapped-to-nothing table; any other code point is dropped exactly when
  it is itself in the commonly-mapped-to-nothing table.
\<close>

theorem mapped_input_space_before_nothing:
  "mapped_input t input =
     concat (map (\<lambda>c. if non_ASCII_space_characters t c
                       then (if commonly_mapped_to_nothing t 0x20 then [] else [0x20])
                       else (if commonly_mapped_to_nothing t c then [] else [c]))
               (toCodePoints input))"
proof -
  have "filter (\<lambda>character. \<not> commonly_mapped_to_nothing t character)
          (map (\<lambda>character. if non_ASCII_space_characters t character then 0x20 else character) cps)
        = concat (map (\<lambda>c. if non_ASCII_space_characters t c
                       then (if commonly_mapped_to_nothing t 0x20 then [] else [0x20])
                       else (if commonly_mapped_to_nothing t c then [] else [c])) cps)"
    for cps
    by (induction cps) simp_all
  then show ?thesis by (simp only: mapped_input_def)
qed

text \<open>
  Claim C9. For every tables value, every options value and every normalization function,
  \<open>saslprep\<close> applied to the empty string returns the empty string. The result does not
  depend on the tables or on \<open>nfkc\<close> (not even on what \<open>nfkc\<close> does to the empty
  string): none of the later steps contributes to it.
\<close>

theorem saslprep_empty_string: "saslprep max_args nfkc t (JSString []) opts = Inr []"
  by (simp add: saslprep_def)

text \<open>
  Claim C2. A non-empty string all of whose code points are in the
  commonly-mapped-to-nothing table and none in the non-ASCII-space table has an empty
  normalized string (NFKC maps the empty string to itself); \<open>saslprep\<close> then calls
  \<open>getCodePoint\<close> on \<open>first('')\<close>, which is \<open>undefined\<close>, and ends with the engine's
  \<open>TypeError\<close>: neither a result nor one of the five error kinds. The witness is the
  one-character string U+00AD with the table that maps U+00AD to nothing.
\<close>

theorem saslprep_all_mapped_to_nothing:
  assumes "nfkc [] = []" and "s \<noteq> []"
    and "list_all (commonly_mapped_to_nothing t) (toCodePoints s)"
    and "\<not> list_ex (non_ASCII_space_characters t) (toCodePoints s)"
  shows "normalized_input max_args nfkc t s = Some [] \<and>
         saslprep max_args nfkc t (JSString s) opts = Inl UncaughtTypeError"
proof -
  have "mapped_input t s = []"
    using assms(3,4) by (auto simp: mapped_input_def list_all_iff list_ex_iff filter_empty_conv)
  then have ni: "normalized_input max_args nfkc t s = Some []"
    using assms(1) by (simp add: normalized_input_Some)
  show ?thesis
    using ni saslprep_nonempty [OF assms(2) ni, of opts] by (simp add: toCodePoints_Nil)
qed

theorem saslprep_all_mapped_to_nothing_witness:
  "saslprep example_max_args nfkc_unchanged soft_hyphen_tables (JSString [0xAD]) default_opts
     = Inl UncaughtTypeError"
proof -
  have h1: "nfkc_unchanged [] = []" by (simp add: nfkc_unchanged_def)
  have h2: "[0xAD] \<noteq> ([] :: utf16)" by simp
  have h3: "list_all (commonly_mapped_to_nothing soft_hyphen_tables) (toCodePoints [0xAD])"
    by (simp add: toCodePoints_decode soft_hyphen_tables_def no_tables_def)
  have h4: "\<not> list_ex (non_ASCII_space_characters soft_hyphen_tables) (toCodePoints [0xAD])"
    by (simp add: toCodePoints_decode soft_hyphen_tables_def no_tables_def)
  show ?thesis
    using saslprep_all_mapped_to_nothing
      [where nfkc = nfkc_unchanged and s = "[0xAD]" and t = soft_hyphen_tables
         and max_args = example_max_args and opts = default_opts] h1 h2 h3 h4
    by simp
qed

text \<open>
  Claim C6. For every input string (NFKC mapping the empty string to itself),
  \<open>saslprep\<close> fails with \<open>ProhibitedCharacter\<close> exactly when some code point of the
  re-decoded normalized string is in the prohibited table. The equivalence holds whatever
  the other tables and the options are, so this failure takes precedence over the
  unassigned and the bidirectional checks, and it is never raised without a prohibited
  code point. In the witness the letter A is prohibited, unassigned, right-to-left and
  left-to-right at once.
\<close>

theorem saslprep_prohibited_iff:
  assumes "nfkc [] = []" and "normalized_input max_args nfkc t s = Some ni"
  shows "(saslprep max_args nfkc t (JSString s) opts = Inl ProhibitedCharacter)
           = list_ex (prohibited_characters t) (toCodePoints ni)"
proof (cases "s = []")
  case True
  from assms(1) have "normalized_input max_args nfkc t [] = Some []" by (simp add: normalized_input_empty)
  with assms(2) True have "ni = []" by simp
  with True show ?thesis by (simp add: saslprep_empty toCodePoints_Nil)
next
  case False
  show ?thesis
    by (simp add: saslprep_nonempty [OF False assms(2)])
qed

theorem saslprep_prohibited_iff_witness:
  "saslprep example_max_args nfkc_unchanged clash_tables (JSString [0x41]) default_opts = Inl ProhibitedCharacter
   \<and> unassigned_code_points clash_tables 0x41
   \<and> bidirectional_r_al clash_tables 0x41 \<and> bidirectional_l clash_tables 0x41"
proof -
  have h1: "nfkc_unchanged [] = []" by (simp add: nfkc_unchanged_def)
  have h2: "normalized_input example_max_args nfkc_unchanged clash_tables [0x41] = Some [0x41]"
    by (simp add: eval_saslprep clash_tables_def)
  have "list_ex (prohibited_characters clash_tables) (toCodePoints [0x41])"
    by (simp add: toCodePoints_decode clash_tables_def no_tables_def)
  then have "saslprep example_max_args nfkc_unchanged clash_tables (JSString [0x41]) default_opts
      = Inl ProhibitedCharacter"
    using saslprep_prohibited_iff [OF h1 h2, of default_opts] by simp
  then show ?thesis by (simp add: clash_tables_def no_tables_def)
qed

text \<open>
  Claim C7. The claim: with \<open>allowUnassigned\<close> not \<open>true\<close>, an unassigned code point in
  the normalized sequence gives \<open>UnassignedCodePoint\<close>; with \<open>allowUnassigned\<close> set to
  \<open>true\<close> the check is skipped and an input whose only violation is an unassigned code
  point succeeds. Here U+10800 is unassigned and right-to-left, and the input is U+10800
  alone. Its normalized sequence \<open>[0x10800]\<close> has no prohibited and no left-to-right code
  point, and its first and last code point is right-to-left: the unassigned code point is
  the only violation. Without the option the call fails with \<open>UnassignedCodePoint\<close>, as
  claimed. With \<open>allowUnassigned\<close> set to \<open>true\<close> the unassigned check is skipped, but the
  call does not succeed: the edge check looks up the code units 0xD802 and 0xDC00 and
  fails with \<open>BidiEdgePlacement\<close>.
\<close>

theorem saslprep_allow_unassigned_edge_failure:
  "toCodePoints [0xD802, 0xDC00] = [0x10800]
   \<and> unassigned_code_points cypriot_unassigned_tables 0x10800
   \<and> \<not> prohibited_characters cypriot_unassigned_tables 0x10800
   \<and> bidirectional_r_al cypriot_unassigned_tables 0x10800
   \<and> \<not> bidirectional_l cypriot_unassigned_tables 0x10800
   \<and> saslprep example_max_args nfkc_unchanged cypriot_unassigned_tables
         (JSString [0xD802, 0xDC00]) default_opts = Inl UnassignedCodePoint
   \<and> saslprep example_max_args nfkc_unchanged cypriot_unassigned_tables
         (JSString [0xD802, 0xDC00]) \<lparr>allowUnassigned = Some True\<rparr> = Inl BidiEdgePlacement"
  by (simp add: eval_saslprep cypriot_unassigned_tables_def)

text \<open>
  Claim C8. For every input that passes the prohibit check and the unassigned check
  (no unassigned code point, or \<open>allowUnassigned\<close> is \<open>true\<close>), if the normalized sequence
  has a code point of the bidi-R-AL table and a code point of the bidi-L table,
  \<open>saslprep\<close> fails with \<open>BidiMixedDirection\<close>.
\<close>

theorem saslprep_bidi_mixed:
  assumes "nfkc [] = []" and "normalized_input max_args nfkc t s = Some ni"
    and "\<not> list_ex (prohibited_characters t) (toCodePoints ni)"
    and "allowUnassigned opts = Some True \<or> \<not> list_ex (unassigned_code_points t) (toCodePoints ni)"
    and "list_ex (bidirectional_r_al t) (toCodePoints ni)"
    and "list_ex (bidirectional_l t) (toCodePoints ni)"
  shows "saslprep max_args nfkc t (JSString s) opts = Inl BidiMixedDirection"
proof (cases "s = []")
  case True
  from assms(1) have "normalized_input max_args nfkc t [] = Some []" by (simp add: normalized_input_empty)
  with assms(2) True have "ni = []" by simp
  with assms(5) show ?thesis by (simp add: toCodePoints_Nil)
next
  case False
  from assms(3-6) show ?thesis by (auto simp: saslprep_nonempty [OF False assms(2)])
qed

theorem saslprep_bidi_mixed_witness:
  "saslprep example_max_args nfkc_unchanged hebrew_tables (JSString [0x61, 0x5D0]) default_opts
     = Inl BidiMixedDirection"
proof -
  have h1: "nfkc_unchanged [] = []" by (simp add: nfkc_unchanged_def)
  have h2: "normalized_input example_max_args nfkc_unchanged hebrew_tables [0x61, 0x5D0] = Some [0x61, 0x5D0]"
    by (simp add: eval_saslprep hebrew_tables_def)
  have h3: "\<not> list_ex (prohibited_characters hebrew_tables) (toCodePoints [0x61, 0x5D0])"
    by (simp add: toCodePoints_decode hebrew_tables_def no_tables_def)
  have h4: "allowUnassigned default_opts = Some True
      \<or> \<not> list_ex (unassigned_code_points hebrew_tables) (toCodePoints [0x61, 0x5D0])"
    by (simp add: toCodePoints_decode hebrew_tables_def no_tables_def)
  have h5: "list_ex (bidirectional_r_al hebrew_tables) (toCodePoints [0x61, 0x5D0])"
    by (simp add: toCodePoints_decode hebrew_tables_def no_tables_def)
  have h6: "list_ex (bidirectional_l hebrew_tables) (toCodePoints [0x61, 0x5D0])"
    by (simp add: toCodePoints_decode hebrew_tables_def no_tables_def)
  show ?thesis by (rule saslprep_bidi_mixed [OF h1 h2 h3 h4 h5 h6])
qed

text \<open>
  Claim C1. The claim: when the normalized sequence has a bidi-R-AL code point, the edge
  check looks at the first and the last code point of the re-decoded normalized sequence,
  also when the string starts or ends with a surrogate pair. The source computes
  \<open>hasBidiRAL\<close> on the decoded sequence, but for the edges it calls
  \<open>getCodePoint(first(normalized_input))\<close> and \<open>getCodePoint(last(normalized_input))\<close>:
  \<open>first\<close> and \<open>last\<close> hand over a single code unit, so \<open>codePointAt\<close> has no pair to
  combine. With a table whose right-to-left code point is U+10800 and the input U+10800
  alone (the units 0xD802 0xDC00), the decoded sequence is \<open>[0x10800]\<close>, first and last
  code point are in the table, and the call still fails with \<open>BidiEdgePlacement\<close>,
  because the units 0xD802 and 0xDC00 are looked up instead.
\<close>

theorem saslprep_edge_check_reads_code_units:
  "toCodePoints [0xD802, 0xDC00] = [0x10800]
   \<and> bidirectional_r_al cypriot_tables 0x10800
   \<and> saslprep example_max_args nfkc_unchanged cypriot_tables (JSString [0xD802, 0xDC00]) default_opts
       = Inl BidiEdgePlacement"
  by (simp add: eval_saslprep cypriot_tables_def)

text \<open>
  Claim C3, as stated: for every tables value, if \<open>saslprep\<close> succeeds on \<open>x\<close> with
  \<open>y\<close>, it succeeds on \<open>y\<close> with \<open>y\<close>. This fails when the output holds a code
  point of one of the two mapping tables. Here U+00AD is mapped to nothing and U+10000 is
  in the space table; the input is a lone high surrogate, U+00AD and a lone low
  surrogate. Dropping U+00AD makes the two surrogates adjacent, \<open>String.fromCodePoint\<close>
  writes them as the pair of U+10000, and the second call maps U+10000 to a space.
\<close>

theorem saslprep_not_idempotent_counterexample:
  "saslprep example_max_args nfkc_unchanged linear_b_space_tables (JSString [0xD800, 0xAD, 0xDC00]) default_opts
     = Inr [0xD800, 0xDC00]
   \<and> saslprep example_max_args nfkc_unchanged linear_b_space_tables (JSString [0xD800, 0xDC00]) default_opts
     = Inr [0x20]"
  by (simp add: eval_saslprep linear_b_space_tables_def)

text \<open>
  Claim C3, amended: for every tables value, options value and input \<open>x\<close>, if NFKC is
  idempotent, \<open>saslprep\<close> succeeds on \<open>x\<close> with \<open>y\<close>, no code point of \<open>y\<close> is in
  the commonly-mapped-to-nothing table or in the non-ASCII-space table, and \<open>y\<close> has no
  more code points than the engine passes as arguments, then \<open>saslprep\<close> (same tables and
  options) succeeds on \<open>y\<close> and returns \<open>y\<close>. The last condition is needed because NFKC
  can lengthen a string: the first call passes the code points of \<open>x\<close> to
  \<open>String.fromCodePoint.apply\<close>, the second call those of \<open>y\<close>.
\<close>

theorem saslprep_idempotent_on_unmapped_output:
  assumes idem: "\<forall>s. nfkc (nfkc s) = nfkc s"
    and ok: "saslprep max_args nfkc t (JSString x) opts = Inr y"
    and fixed: "\<not> list_ex (commonly_mapped_to_nothing t) (toCodePoints y)"
               "\<not> list_ex (non_ASCII_space_characters t) (toCodePoints y)"
    and fits: "length (toCodePoints y) \<le> max_args"
  shows "saslprep max_args nfkc t (JSString y) opts = Inr y"
proof (cases "x = []")
  case True
  with ok have "y = []" by (simp add: saslprep_empty)
  then show ?thesis by (simp add: saslprep_empty)
next
  case False
  define str where "str = concat (map UTF16EncodeCodePoint (mapped_input t x))"
  have ni: "normalized_input max_args nfkc t x = Some y"
    using False ok by (rule saslprep_Inr)
  then have y: "y = nfkc str"
    unfolding str_def by (rule normalized_input_SomeD)
  note first_call = saslprep_nonempty [OF False ni, of opts]
  from ok have ne: "y \<noteq> []"
    unfolding first_call by (auto split: if_splits)
  have "mapped_input t y = toCodePoints y"
    using fixed by (simp add: mapped_input_def list_ex_iff filter_id_conv map_idI)
  then have "normalized_input max_args nfkc t y = Some (nfkc y)"
    using fromCodePoint_toCodePoints [of y] fits
    by (simp add: normalized_input_def fromCodePoint_apply_def)
  also have "nfkc y = y"
    using idem by (simp add: y)
  finally have ni': "normalized_input max_args nfkc t y = Some y" .
  show ?thesis
    using ok unfolding first_call saslprep_nonempty [OF ne ni', of opts] .
qed

theorem saslprep_idempotent_on_unmapped_output_witness:
  "saslprep example_max_args nfkc_unchanged soft_hyphen_tables (JSString [0x49, 0xAD, 0x58]) default_opts
     = Inr [0x49, 0x58]
   \<and> saslprep example_max_args nfkc_unchanged soft_hyphen_tables (JSString [0x49, 0x58]) default_opts
     = Inr [0x49, 0x58]"
proof -
  have h1: "\<forall>s. nfkc_unchanged (nfkc_unchanged s) = nfkc_unchanged s"
    by (simp add: nfkc_unchanged_def)
  have h2: "saslprep example_max_args nfkc_unchanged soft_hyphen_tables (JSString [0x49, 0xAD, 0x58]) default_opts
     = Inr [0x49, 0x58]"
    by (simp add: eval_saslprep soft_hyphen_tables_def)
  have h3: "\<not> list_ex (commonly_mapped_to_nothing soft_hyphen_tables) (toCodePoints [0x49, 0x58])"
    by (simp add: toCodePoints_decode soft_hyphen_tables_def no_tables_def)
  have h4: "\<not> list_ex (non_ASCII_space_characters soft_hyphen_tables) (toCodePoints [0x49, 0x58])"
    by (simp add: toCodePoints_decode soft_hyphen_tables_def no_tables_def)
  have h5: "length (toCodePoints [0x49, 0x58]) \<le> example_max_args"
    by (simp add: toCodePoints_decode example_max_args_def)
  from saslprep_idempotent_on_unmapped_output [OF h1 h2 h3 h4 h5] h2 show ?thesis by simp
qed

text \<open>
  Claim C10, as stated: a code point of the input that is in the commonly-mapped-to-nothing
  table never occurs in a successful result. Here U+10000 is mapped to nothing and the
  input is a lone high surrogate, U+10000 and a lone low surrogate. U+10000 is dropped,
  the two lone surrogates become adjacent, and the returned string is the surrogate pair
  of U+10000 again.
\<close>

theorem saslprep_mapped_to_nothing_reappears_counterexample:
  "saslprep example_max_args nfkc_unchanged linear_b_nothing_tables
       (JSString [0xD800, 0xD800, 0xDC00, 0xDC00]) default_opts = Inr [0xD800, 0xDC00]
   \<and> 0x10000 \<in> set (toCodePoints [0xD800, 0xD800, 0xDC00, 0xDC00])
   \<and> commonly_mapped_to_nothing linear_b_nothing_tables 0x10000
   \<and> 0x10000 \<in> set (toCodePoints [0xD800, 0xDC00])"
  by (simp add: eval_saslprep linear_b_nothing_tables_def)

text \<open>
  Claim C10, amended: let the input \<open>x\<close> contain a code point \<open>c\<close> of the
  commonly-mapped-to-nothing table; let NFKC never introduce \<open>c\<close> (\<open>c\<close> occurs in a
  normalized string only if it occurs in the string before normalization); and let
  \<open>c\<close> be below 0x10000 or \<open>x\<close> contain no unpaired surrogate. Then whenever \<open>saslprep\<close>
  succeeds on \<open>x\<close>, \<open>c\<close> does not occur in the returned string.
\<close>

theorem saslprep_mapped_to_nothing_absent:
  assumes ok: "saslprep max_args nfkc t (JSString x) opts = Inr y"
    and c: "c \<in> set (toCodePoints x)" "commonly_mapped_to_nothing t c"
    and nfkc: "\<forall>s. c \<in> set (toCodePoints (nfkc s)) \<longrightarrow> c \<in> set (toCodePoints s)"
    and wf: "c < 0x10000 \<or> \<not> list_ex (\<lambda>cp. 0xD800 \<le> cp \<and> cp \<le> 0xDFFF) (toCodePoints x)"
  shows "c \<notin> set (toCodePoints y)"
proof (cases "x = []")
  case True
  with c(1) show ?thesis by (simp add: toCodePoints_Nil)
next
  case False
  define str where "str = concat (map UTF16EncodeCodePoint (mapped_input t x))"
  have "normalized_input max_args nfkc t x = Some y"
    using False ok by (rule saslprep_Inr)
  then have y: "y = nfkc str"
    unfolding str_def by (rule normalized_input_SomeD)
  show ?thesis
  proof
    assume "c \<in> set (toCodePoints y)"
    with nfkc have "c \<in> set (toCodePoints str)" by (simp add: y)
    then have "c \<in> set (decode_spec (concat (map UTF16EncodeCodePoint (mapped_input t x))))"
      by (simp add: toCodePoints_decode str_def)
    then have "c \<in> set (mapped_input t x) \<or>
         (0x10000 \<le> c \<and> (\<exists>h\<in>set (mapped_input t x). 0xD800 \<le> h \<and> h \<le> 0xDBFF)
                      \<and> (\<exists>l\<in>set (mapped_input t x). 0xDC00 \<le> l \<and> l \<le> 0xDFFF))"
      by (intro decode_encode_mem mapped_input_le)
    then show False
    proof
      assume "c \<in> set (mapped_input t x)"
      with c(2) show False by (simp add: mapped_input_def)
    next
      assume pair: "0x10000 \<le> c \<and> (\<exists>h\<in>set (mapped_input t x). 0xD800 \<le> h \<and> h \<le> 0xDBFF)
                      \<and> (\<exists>l\<in>set (mapped_input t x). 0xDC00 \<le> l \<and> l \<le> 0xDFFF)"
      then obtain h where h: "h \<in> set (mapped_input t x)" "0xD800 \<le> h" "h \<le> 0xDBFF" by blast
      then have "h \<in> set (toCodePoints x)"
        by (auto simp: mapped_input_def split: if_splits)
      with h have "list_ex (\<lambda>cp. 0xD800 \<le> cp \<and> cp \<le> 0xDFFF) (toCodePoints x)"
        by (auto simp: list_ex_iff)
      with wf pair show False by simp
    qed
  qed
qed

theorem saslprep_mapped_to_nothing_absent_witness:
  "saslprep example_max_args nfkc_unchanged soft_hyphen_tables (JSString [0x49, 0xAD, 0x58]) default_opts
     = Inr [0x49, 0x58]
   \<and> 0xAD \<in> set (toCodePoints [0x49, 0xAD, 0x58])
   \<and> 0xAD \<notin> set (toCodePoints [0x49, 0x58])"
proof -
  have h1: "saslprep example_max_args nfkc_unchanged soft_hyphen_tables (JSString [0x49, 0xAD, 0x58]) default_opts
     = Inr [0x49, 0x58]"
    by (simp add: eval_saslprep soft_hyphen_tables_def)
  have h2: "0xAD \<in> set (toCodePoints [0x49, 0xAD, 0x58])"
    by (simp add: toCodePoints_decode)
  have h3: "commonly_mapped_to_nothing soft_hyphen_tables 0xAD"
    by (simp add: soft_hyphen_tables_def no_tables_def)
  have h4: "\<forall>s. 0xAD \<in> set (toCodePoints (nfkc_unchanged s)) \<longrightarrow> 0xAD \<in> set (toCodePoints s)"
    by (simp add: nfkc_unchanged_def)
  have h5: "(0xAD :: nat) < 0x10000
      \<or> \<not> list_ex (\<lambda>cp. 0xD800 \<le> cp \<and> cp \<le> 0xDFFF) (toCodePoints [0x49, 0xAD, 0x58])"
    by simp
  from saslprep_mapped_to_nothing_absent [OF h1 h2 h3 h4 h5] h1 h2 show ?thesis by simp
qed

end
